theory Spec2Isabelle
  imports Complex_Main
begin

section \<open>Python values shared by the scripts\<close>

text \<open>
  What a Python statement can raise. \<open>Exception name\<close> stands for an instance of any
  class derived from \<open>Exception\<close> (IndexError, ValueError, FileNotFoundError, numpy's
  LinAlgError, ...), tagged with its class name. KeyboardInterrupt and SystemExit derive
  from BaseException only, so a handler \<open>except Exception\<close> does not catch them.
  A result of type \<open>py_raise + 'a\<close> is \<open>Inl e\<close> when the statement raises \<open>e\<close>.
\<close>

datatype py_raise = KeyboardInterrupt | SystemExit | Exception string

text \<open>
  \<open>xs[i]\<close> on a sequence: an index from \<open>-len\<close> up to \<open>-1\<close> counts from the end, an
  index outside \<open>-len .. len - 1\<close> raises IndexError.
\<close>

definition getitem :: "'a list \<Rightarrow> int \<Rightarrow> py_raise + 'a" where
  "getitem xs i =
     (if - int (length xs) \<le> i \<and> i < 0 then Inr (xs ! nat (int (length xs) + i))
      else if 0 \<le> i \<and> i < int (length xs) then Inr (xs ! nat i)
      else Inl (Exception ''IndexError''))"

text \<open>
  A Python float as the training driver compares it: NaN, the two infinities or a
  finite number (taken as a real; rounding is outside the model). \<open>float_less a b\<close> is
  \<open>a < b\<close> and \<open>float_le a b\<close> is \<open>a <= b\<close>: every comparison with NaN is False, and
  otherwise minus infinity lies below and plus infinity above every finite number.
\<close>

datatype pyfloat = Nan | Neg_inf | Fin real | Pos_inf

fun float_less :: "pyfloat \<Rightarrow> pyfloat \<Rightarrow> bool" where
  "float_less Nan b = False"
| "float_less a Nan = False"
| "float_less Neg_inf Neg_inf = False"
| "float_less Neg_inf b = True"
| "float_less (Fin x) (Fin y) = (x < y)"
| "float_less (Fin x) Pos_inf = True"
| "float_less (Fin x) Neg_inf = False"
| "float_less Pos_inf b = False"

definition float_le :: "pyfloat \<Rightarrow> pyfloat \<Rightarrow> bool" where
  "float_le a b = (float_less a b \<or> (a = b \<and> a \<noteq> Nan))"

text \<open>
  A two-dimensional numeric table: a pandas DataFrame read from a CSV file, or a numpy
  array of shape \<open>(length (rows a), ncols a)\<close>. The float32 entries are modelled as
  reals; NaN and the infinities are outside the model. The column count is kept beside
  the rows because an array without rows still has one.
\<close>

record ndarray =
  ncols :: nat
  rows :: "real list list"

section \<open>2.2-training.py: the offline environment\<close>

text \<open>The dictionary \<open>self._dataset\<close> with its four fixed keys.\<close>

record dataset =
  obs :: ndarray
  actions :: ndarray
  rewards :: ndarray
  terminateds :: ndarray

text \<open>The mutable attributes of an \<open>OfflineEnv\<close> instance.\<close>

record offline_env =
  env_dataset :: dataset
  index :: int
  current_episode_reward :: real
  current_episode_length :: int

type_synonym action = "real list"

text \<open>
  The value \<open>step\<close> returns: observation, reward, terminated, truncated and the info
  dictionary.
\<close>

type_synonym step_result = "real list \<times> real \<times> bool \<times> bool \<times> (string \<rightharpoonup> real)"

text \<open>\<open>OfflineEnv.__init__\<close>, given the module-level arrays.\<close>

definition init_env :: "dataset \<Rightarrow> offline_env" where
  "init_env ds =
     \<lparr>env_dataset = ds, index = 0, current_episode_reward = 0, current_episode_length = 0\<rparr>"

text \<open>
  \<open>OfflineEnv.reset\<close>. The argument \<open>r\<close> is the number \<open>np.random.randint(0, n)\<close>
  draws, which lies in \<open>[0, n)\<close>; with an empty table the draw itself raises ValueError
  before any attribute is written. It returns the observation under the new cursor and
  an empty info dictionary.
\<close>

definition reset ::
  "offline_env \<Rightarrow> int \<Rightarrow> py_raise + ((real list \<times> (string \<rightharpoonup> real)) \<times> offline_env)" where
  "reset self r =
     (if length (rows (obs (env_dataset self))) = 0 then Inl (Exception ''ValueError'')
      else
        (case getitem (rows (obs (env_dataset self))) r of
           Inl e \<Rightarrow> Inl e
         | Inr start_obs \<Rightarrow>
             Inr ((start_obs, Map.empty),
                  self\<lparr>index := r, current_episode_reward := 0,
                       current_episode_length := 0\<rparr>)))"

text \<open>
  \<open>OfflineEnv.step\<close>. The three reads come first and raise IndexError before any
  attribute is written; then the accumulators and the cursor are updated. The
  \<open>action\<close> parameter is bound and never used, as in the source.
\<close>

definition step :: "offline_env \<Rightarrow> action \<Rightarrow> py_raise + (step_result \<times> offline_env)" where
  "step self action =
     (case getitem (rows (obs (env_dataset self))) (index self) of
        Inl e \<Rightarrow> Inl e
      | Inr obs_row \<Rightarrow>
     (case getitem (rows (rewards (env_dataset self))) (index self) of
        Inl e \<Rightarrow> Inl e
      | Inr reward_row \<Rightarrow>
     (case getitem reward_row 0 of
        Inl e \<Rightarrow> Inl e
      | Inr reward \<Rightarrow>
     (case getitem (rows (terminateds (env_dataset self))) (index self) of
        Inl e \<Rightarrow> Inl e
      | Inr terminal_row \<Rightarrow>
     (case getitem terminal_row 0 of
        Inl e \<Rightarrow> Inl e
      | Inr terminal \<Rightarrow>
          if length (rows (obs (env_dataset self))) = 0
          then Inl (Exception ''ZeroDivisionError'')
          else
            Inr ((obs_row, reward, terminal \<noteq> 0, False,
                  [''episode_reward'' \<mapsto> current_episode_reward self + reward]),
                 self\<lparr>current_episode_reward := current_episode_reward self + reward,
                      current_episode_length := current_episode_length self + 1,
                      index := (index self + 1)
                                 mod int (length (rows (obs (env_dataset self))))\<rparr>))))))"

text \<open>Consecutive \<open>step\<close> calls, one per action of the list; the first raise ends them.\<close>

fun step_calls :: "offline_env \<Rightarrow> action list \<Rightarrow> py_raise + offline_env" where
  "step_calls self [] = Inr self"
| "step_calls self (a # as) =
     (case step self a of Inl e \<Rightarrow> Inl e | Inr (res, self') \<Rightarrow> step_calls self' as)"

text \<open>
  The tables on which \<open>step\<close> cannot raise: at least one row, as many reward and
  terminal rows as observation rows, and every reward and terminal row with a column 0.
  The loader builds such arrays from any table with a row and 37 columns.
\<close>

definition replay_table :: "dataset \<Rightarrow> bool" where
  "replay_table ds =
     (rows (obs ds) \<noteq> [] \<and>
      length (rows (rewards ds)) = length (rows (obs ds)) \<and>
      length (rows (terminateds ds)) = length (rows (obs ds)) \<and>
      [] \<notin> set (rows (rewards ds)) \<and> [] \<notin> set (rows (terminateds ds)))"

text \<open>The cursor lies in \<open>[0, table length)\<close>.\<close>

definition cursor_ok :: "offline_env \<Rightarrow> bool" where
  "cursor_ok self =
     (0 \<le> index self \<and> index self < int (length (rows (obs (env_dataset self)))))"

text \<open>
  A table of two transitions whose observations differ: row 0 observes 1 in each of
  the 34 features and earns 5, row 1 observes 2 and earns 7 and is terminal.
\<close>

definition two_transitions :: dataset where
  "two_transitions =
     \<lparr>obs = \<lparr>ncols = 34, rows = [replicate 34 1, replicate 34 2]\<rparr>,
      actions = \<lparr>ncols = 1, rows = [ [0], [0] ]\<rparr>,
      rewards = \<lparr>ncols = 1, rows = [ [5], [7] ]\<rparr>,
      terminateds = \<lparr>ncols = 1, rows = [ [0], [1] ]\<rparr>\<rparr>"

section \<open>2.2-training.py: loading the offline dataset\<close>

text \<open>What the scripts print and which external effects they cause, in order.\<close>

datatype event =
    Loading_data
  | Data_loaded nat "real option"
  | Iteration_report nat pyfloat pyfloat pyfloat
  | Best_checkpoint nat pyfloat
  | Early_stopping nat
  | Interrupted
  | Final_checkpoint
  | Torch_model_saved
  | Export_failed string
  | Process_completed
  | Polynomial_failed string

text \<open>
  \<open>data.iloc[:, a:b].values.astype(np.float32)\<close>: the columns \<open>a\<close> up to \<open>b - 1\<close> that
  the table has, copied into a new array (so the four arrays share no storage).
\<close>

definition iloc_cols :: "nat \<Rightarrow> nat \<Rightarrow> ndarray \<Rightarrow> ndarray" where
  "iloc_cols a b data =
     \<lparr>ncols = min b (ncols data) - min a (ncols data),
      rows = map (\<lambda>r. take (b - a) (drop a r)) (rows data)\<rparr>"

text \<open>
  \<open>a.sum()\<close> and \<open>a.mean()\<close> over all entries; the mean of no entries is NaN. The sum
  is the exact one: on a column of flags 0 and 1 the float32 sum is zero exactly when
  the exact sum is.
\<close>

definition array_sum :: "ndarray \<Rightarrow> real" where
  "array_sum a = sum_list (map sum_list (rows a))"

definition array_mean :: "ndarray \<Rightarrow> real option" where
  "array_mean a =
     (if length (rows a) * ncols a = 0 then None
      else Some (array_sum a / real (length (rows a) * ncols a)))"

text \<open>Where the slice \<open>[k:]\<close> of a sequence of length \<open>n\<close> starts.\<close>

definition slice_start :: "int \<Rightarrow> nat \<Rightarrow> nat" where
  "slice_start k n = (if k < 0 then nat (max 0 (int n + k)) else min (nat k) n)"

text \<open>
  \<open>a[k:, 0] = v\<close>: column 0 of every row of the slice is overwritten. Without a
  column 0 the index raises IndexError, whatever the slice holds.
\<close>

definition assign_tail_col0 :: "int \<Rightarrow> real \<Rightarrow> ndarray \<Rightarrow> py_raise + ndarray" where
  "assign_tail_col0 k v a =
     (if ncols a = 0 then Inl (Exception ''IndexError'')
      else
        Inr (a\<lparr>rows :=
               take (slice_start k (length (rows a))) (rows a) @
               map (\<lambda>r. r[0 := v]) (drop (slice_start k (length (rows a))) (rows a))\<rparr>))"

text \<open>Lines 27-28: the fallback on the terminal column.\<close>

definition terminal_fallback :: "ndarray \<Rightarrow> py_raise + ndarray" where
  "terminal_fallback terminals =
     (if array_sum terminals = 0 then assign_tail_col0 (- 1000) 1 terminals
      else Inr terminals)"

text \<open>
  Lines 19-30. The argument is what \<open>pd.read_csv("model-base.csv")\<close> does: it returns
  the table or raises (FileNotFoundError, a parser error). The section has no
  \<open>try\<close>, no test of the file's existence and no call of \<open>exit\<close>: whatever is raised
  leaves the module, which is the \<open>Inl\<close> result here.
\<close>

definition load_offline_dataset :: "py_raise + ndarray \<Rightarrow> event list \<times> (py_raise + dataset)" where
  "load_offline_dataset read_csv =
     (case read_csv of
        Inl e \<Rightarrow> ([Loading_data], Inl e)
      | Inr data \<Rightarrow>
          (case terminal_fallback (iloc_cols 36 37 data) of
             Inl e \<Rightarrow> ([Loading_data], Inl e)
           | Inr terminals \<Rightarrow>
               ([Loading_data,
                 Data_loaded (length (rows (iloc_cols 0 34 data)))
                   (array_mean (iloc_cols 35 36 data))],
                Inr \<lparr>obs = iloc_cols 0 34 data, actions = iloc_cols 34 35 data,
                     rewards = iloc_cols 35 36 data, terminateds = terminals\<rparr>)))"

text \<open>
  The input contract of the loader: a rectangular table with at least 37 columns whose
  terminal column (column 36) holds the flags 0 and 1 only.
\<close>

definition transition_table :: "ndarray \<Rightarrow> bool" where
  "transition_table data =
     (37 \<le> ncols data \<and> list_all (\<lambda>r. length r = ncols data) (rows data) \<and>
      list_all (\<lambda>r. r ! 36 = 0 \<or> r ! 36 = 1) (rows data))"

text \<open>The terminal flag of row \<open>i\<close> of a terminal array.\<close>

definition flag :: "ndarray \<Rightarrow> nat \<Rightarrow> real" where
  "flag terminals i = rows terminals ! i ! 0"

text \<open>
  Three tables for the loader: 1001 transitions without any terminal flag, a table with
  37 columns and no row, and a table that lacks the terminal column.
\<close>

definition unflagged_table :: ndarray where
  "unflagged_table = \<lparr>ncols = 37, rows = replicate 1001 (replicate 36 3 @ [0])\<rparr>"

definition empty_table :: ndarray where
  "empty_table = \<lparr>ncols = 37, rows = []\<rparr>"

definition narrow_table :: ndarray where
  "narrow_table = \<lparr>ncols = 36, rows = [replicate 36 1]\<rparr>"

section \<open>2.2-training.py: the training driver\<close>

text \<open>
  The dictionary \<open>algo.train()\<close> returns, restricted to its float metrics (a metric
  can be NaN or infinite), and \<open>result.get(key, default)\<close>.
\<close>

type_synonym result = "string \<rightharpoonup> pyfloat"

definition dict_get :: "result \<Rightarrow> string \<Rightarrow> pyfloat \<Rightarrow> pyfloat" where
  "dict_get d k dflt = (case d k of None \<Rightarrow> dflt | Some v \<Rightarrow> v)"

text \<open>
  The driver's variable \<open>best_reward\<close>, a float that starts as \<open>-float('inf')\<close>, and the
  output so far.
\<close>

record driver =
  best_reward :: pyfloat
  out :: "event list"

definition emit :: "event \<Rightarrow> driver \<Rightarrow> driver" where
  "emit ev st = st\<lparr>out := out st @ [ev]\<rparr>"

text \<open>
  Lines 164-182: the body of the loop after \<open>algo.train()\<close> has returned \<open>result\<close>.
  The boolean says whether \<open>break\<close> was reached. \<open>Best_checkpoint i r\<close> records the
  call \<open>algo.save(checkpoint_dir)\<close> of line 176 in iteration \<open>i\<close> with its message.
  The two tests are the float comparisons \<open>avg_reward > best_reward\<close> and
  \<open>avg_reward <= 0\<close>.
\<close>

definition iteration :: "nat \<Rightarrow> result \<Rightarrow> driver \<Rightarrow> driver \<times> bool" where
  "iteration i result st =
     (let avg_reward = dict_get result ''episode_reward_mean'' (Fin 0);
          avg_episode_length = dict_get result ''episode_len_mean'' (Fin 0);
          total_timesteps = dict_get result ''num_env_steps_sampled_lifetime'' (Fin 0);
          st1 = emit (Iteration_report i avg_reward avg_episode_length total_timesteps) st;
          st2 = (if float_less (best_reward st1) avg_reward
                 then emit (Best_checkpoint i avg_reward)
                        (st1\<lparr>best_reward := avg_reward\<rparr>)
                 else st1)
      in if 20 < i \<and> float_le avg_reward (Fin 0) then (emit (Early_stopping i) st2, True)
         else (st2, False))"

text \<open>
  How the \<open>for\<close> loop is left, and the loop itself: \<open>training_loop train i k st\<close> runs
  the iterations \<open>i, \<dots>, i + k - 1\<close>. \<open>train i\<close> is what the call \<open>algo.train()\<close> of
  iteration \<open>i\<close> does: it returns a result or raises, for instance KeyboardInterrupt.
\<close>

datatype loop_exit = Exhausted | Broke | Raised py_raise

fun training_loop ::
  "(nat \<Rightarrow> py_raise + result) \<Rightarrow> nat \<Rightarrow> nat \<Rightarrow> driver \<Rightarrow> driver \<times> loop_exit" where
  "training_loop train i 0 st = (st, Exhausted)"
| "training_loop train i (Suc k) st =
     (case train i of
        Inl e \<Rightarrow> (st, Raised e)
      | Inr result \<Rightarrow>
          (case iteration i result st of
             (st', True) \<Rightarrow> (st', Broke)
           | (st', False) \<Rightarrow> training_loop train (i + 1) k st'))"

text \<open>
  Lines 191-204, after the final checkpoint: \<open>export\<close> is what the body of the inner
  \<open>try\<close> does: \<open>Inr True\<close> when \<open>torch.save\<close> wrote the weights, \<open>Inr False\<close> when one of
  the two tests skipped it, \<open>Inl e\<close> when it raised. The handler is \<open>except Exception\<close>.
  The second component is the exception that leaves the block, if any.
\<close>

definition export_model :: "py_raise + bool \<Rightarrow> driver \<Rightarrow> driver \<times> py_raise option" where
  "export_model export st =
     (case export of
        Inr True \<Rightarrow> (emit Process_completed (emit Torch_model_saved st), None)
      | Inr False \<Rightarrow> (emit Process_completed st, None)
      | Inl (Exception msg) \<Rightarrow> (emit Process_completed (emit (Export_failed msg) st), None)
      | Inl e \<Rightarrow> (st, Some e))"

text \<open>
  Lines 158-206: the \<open>try\<close> around the loop of 100 iterations, the handler of
  KeyboardInterrupt and the \<open>finally\<close> block. The result is the output and the
  exception that ends the process, if any: one raised inside \<open>finally\<close> replaces the one
  the loop left pending. \<open>Final_checkpoint\<close> records the call
  \<open>algo.save(checkpoint_dir)\<close> of line 188 with its message. The calls of \<open>algo.save\<close>
  and \<open>print\<close> are taken to return; building the algorithm and creating the
  checkpoint directory, which precede the \<open>try\<close>, are not part of the model.
\<close>

definition initial_driver :: driver where
  "initial_driver = \<lparr>best_reward = Neg_inf, out = []\<rparr>"

definition main :: "(nat \<Rightarrow> py_raise + result) \<Rightarrow> py_raise + bool \<Rightarrow> event list \<times> py_raise option" where
  "main train export =
     (case training_loop train 0 100 initial_driver of
        (st, ending) \<Rightarrow>
          (let st1 = (if ending = Raised KeyboardInterrupt then emit Interrupted st else st);
               pending = (case ending of
                            Raised e \<Rightarrow> (if e = KeyboardInterrupt then None else Some e)
                          | _ \<Rightarrow> None)
           in case export_model export (emit Final_checkpoint st1) of
                (st2, None) \<Rightarrow> (out st2, pending)
              | (st2, Some e) \<Rightarrow> (out st2, Some e)))"

text \<open>The mean reward iteration \<open>j\<close> observes, when its \<open>algo.train()\<close> returns.\<close>

definition avg_reward_at :: "(nat \<Rightarrow> py_raise + result) \<Rightarrow> nat \<Rightarrow> pyfloat" where
  "avg_reward_at train j =
     (case train j of
        Inr result \<Rightarrow> dict_get result ''episode_reward_mean'' (Fin 0)
      | Inl e \<Rightarrow> Fin 0)"

text \<open>
  For the proofs about the loop: the iteration an output event belongs to, the loop
  invariant that \<open>best_reward\<close> is the largest of minus infinity and the mean rewards
  other than NaN of the iterations before \<open>i\<close> (so a float exceeds it exactly when it is
  neither NaN nor minus infinity and exceeds each of those), and the fact that the
  output so far stems from iterations before \<open>i\<close>.
\<close>

fun iteration_of :: "event \<Rightarrow> nat option" where
  "iteration_of (Iteration_report i a l t) = Some i"
| "iteration_of (Best_checkpoint i a) = Some i"
| "iteration_of (Early_stopping i) = Some i"
| "iteration_of ev = None"

definition tracks_max :: "(nat \<Rightarrow> py_raise + result) \<Rightarrow> nat \<Rightarrow> driver \<Rightarrow> bool" where
  "tracks_max train i st =
     (\<forall>a. float_less (best_reward st) a =
        (a \<noteq> Nan \<and> a \<noteq> Neg_inf \<and>
         (\<forall>j<i. avg_reward_at train j = Nan \<or> float_less (avg_reward_at train j) a)))"

definition all_before :: "nat \<Rightarrow> driver \<Rightarrow> bool" where
  "all_before i st = (\<forall>ev\<in>set (out st). \<forall>n. iteration_of ev = Some n \<longrightarrow> n < i)"

text \<open>
  Three runs: one whose results never carry the metric \<open>episode_reward_mean\<close>, one
  that observes the mean rewards 1, 1 and 3 and is interrupted in its fourth iteration,
  and one that observes NaN (no episode has ended yet), then 1, and is interrupted in
  its third iteration.
\<close>

definition stagnant_run :: "nat \<Rightarrow> py_raise + result" where
  "stagnant_run i = Inr Map.empty"

definition interrupted_run :: "nat \<Rightarrow> py_raise + result" where
  "interrupted_run i =
     (if i = 0 then Inr [''episode_reward_mean'' \<mapsto> Fin 1]
      else if i = 1 then Inr [''episode_reward_mean'' \<mapsto> Fin 1]
      else if i = 2 then Inr [''episode_reward_mean'' \<mapsto> Fin 3]
      else Inl KeyboardInterrupt)"

definition nan_run :: "nat \<Rightarrow> py_raise + result" where
  "nan_run i =
     (if i = 0 then Inr [''episode_reward_mean'' \<mapsto> Nan]
      else if i = 1 then Inr [''episode_reward_mean'' \<mapsto> Fin 1]
      else Inl KeyboardInterrupt)"

section \<open>FittingAnalysis.py: the curve fitting\<close>

text \<open>
  The numeric library calls of lines 60-85, as parameters: each returns its value or
  raises. A spline object is the function that evaluates it on a grid.
\<close>

record numlib =
  polyfit :: "real list \<Rightarrow> real list \<Rightarrow> nat \<Rightarrow> py_raise + real list"
  polyval :: "real list \<Rightarrow> real list \<Rightarrow> py_raise + real list"
  UnivariateSpline ::
    "real list \<Rightarrow> real list \<Rightarrow> real \<Rightarrow> py_raise + (real list \<Rightarrow> py_raise + real list)"

text \<open>
  The dictionary \<open>fit_results\<close> once its four keys are set; \<open>fit_method\<close> is the key
  \<open>method\<close>.
\<close>

record fit_results =
  fit_method :: string
  y0_fit :: "real list"
  y1_fit :: "real list"
  success :: bool

text \<open>Sequencing of statements that may raise.\<close>

definition and_then :: "py_raise + 'a \<Rightarrow> ('a \<Rightarrow> py_raise + 'b) \<Rightarrow> py_raise + 'b" where
  "and_then r f = (case r of Inl e \<Rightarrow> Inl e | Inr v \<Rightarrow> f v)"

text \<open>Lines 61-72, the body of the \<open>try\<close>.\<close>

definition polynomial_fit ::
  "numlib \<Rightarrow> real list \<Rightarrow> real list \<Rightarrow> real list \<Rightarrow> real list \<Rightarrow> py_raise + fit_results" where
  "polynomial_fit np x_data y0_mean y1_mean x_fine =
     and_then (polyfit np x_data y0_mean 4) (\<lambda>p0_coeffs.
     and_then (polyval np p0_coeffs x_fine) (\<lambda>y0_poly_fit.
     and_then (polyfit np x_data y1_mean 4) (\<lambda>p1_coeffs.
     and_then (polyval np p1_coeffs x_fine) (\<lambda>y1_poly_fit.
       Inr \<lparr>fit_method = ''4th Order Polynomial'', y0_fit = y0_poly_fit,
            y1_fit = y1_poly_fit, success = True\<rparr>))))"

text \<open>Lines 77-85, the body of the handler.\<close>

definition spline_fit ::
  "numlib \<Rightarrow> real list \<Rightarrow> real list \<Rightarrow> real list \<Rightarrow> real list \<Rightarrow> py_raise + fit_results" where
  "spline_fit np x_data y0_mean y1_mean x_fine =
     and_then (UnivariateSpline np x_data y0_mean 100) (\<lambda>spl0.
     and_then (UnivariateSpline np x_data y1_mean 100) (\<lambda>spl1.
     and_then (spl0 x_fine) (\<lambda>y0_spline.
     and_then (spl1 x_fine) (\<lambda>y1_spline.
       Inr \<lparr>fit_method = ''Spline Interpolation'', y0_fit = y0_spline,
            y1_fit = y1_spline, success = False\<rparr>))))"

text \<open>
  Lines 58-85: \<open>try\<close> the polynomial fit, \<open>except Exception\<close> print and fit splines.
  An \<open>Inl\<close> result is an exception that leaves the section and ends the script.
\<close>

definition curve_fitting ::
  "numlib \<Rightarrow> real list \<Rightarrow> real list \<Rightarrow> real list \<Rightarrow> real list
     \<Rightarrow> event list \<times> (py_raise + fit_results)" where
  "curve_fitting np x_data y0_mean y1_mean x_fine =
     (case polynomial_fit np x_data y0_mean y1_mean x_fine of
        Inr fitted \<Rightarrow> ([], Inr fitted)
      | Inl (Exception msg) \<Rightarrow>
          ([Polynomial_failed msg], spline_fit np x_data y0_mean y1_mean x_fine)
      | Inl e \<Rightarrow> ([], Inl e))"

text \<open>
  Two behaviours of the numeric library: one where the polynomial fit and the spline
  construction both raise, and one where only the polynomial fit of the second group
  raises.
\<close>

definition failing_lib :: numlib where
  "failing_lib =
     \<lparr>polyfit = (\<lambda>x y deg. Inl (Exception ''LinAlgError'')),
      polyval = (\<lambda>p grid. Inr grid),
      UnivariateSpline = (\<lambda>x y s. Inl (Exception ''ValueError''))\<rparr>"

definition spline_only_lib :: numlib where
  "spline_only_lib =
     \<lparr>polyfit = (\<lambda>x y deg. if y = [2, 4] then Inl (Exception ''LinAlgError'')
                           else Inr [0, 0, 0, 0, 1]),
      polyval = (\<lambda>p grid. Inr (map (\<lambda>g. 1) grid)),
      UnivariateSpline = (\<lambda>x y s. Inr (\<lambda>grid. Inr (map (\<lambda>g. sum_list y) grid)))\<rparr>"

section \<open>Properties of the offline environment\<close>

lemma getitem_in_range:
  "0 \<le> i \<Longrightarrow> i < int (length xs) \<Longrightarrow> getitem xs i = Inr (xs ! nat i)"
  by (simp add: getitem_def)

lemma getitem_first: "xs \<noteq> [] \<Longrightarrow> getitem xs 0 = Inr (xs ! 0)"
  by (simp add: getitem_def)

text \<open>
  On a replay table with the cursor in range \<open>step\<close> returns, and this is what it
  returns: the observation, reward and terminal flag all come from the row under the
  cursor, and the cursor moves on cyclically.
\<close>

lemma step_replays_row:
  assumes "replay_table (env_dataset self)" and "cursor_ok self"
  shows "step self a =
    Inr ((rows (obs (env_dataset self)) ! nat (index self),
          rows (rewards (env_dataset self)) ! nat (index self) ! 0,
          rows (terminateds (env_dataset self)) ! nat (index self) ! 0 \<noteq> 0,
          False,
          [''episode_reward'' \<mapsto> current_episode_reward self
              + rows (rewards (env_dataset self)) ! nat (index self) ! 0]),
         self\<lparr>current_episode_reward := current_episode_reward self
                  + rows (rewards (env_dataset self)) ! nat (index self) ! 0,
              current_episode_length := current_episode_length self + 1,
              index := (index self + 1) mod int (length (rows (obs (env_dataset self))))\<rparr>)"
proof -
  let ?ds = "env_dataset self"
  let ?j = "nat (index self)"
  from assms have j: "0 \<le> index self" "index self < int (length (rows (obs ?ds)))"
    by (simp_all add: cursor_ok_def)
  from assms have len: "length (rows (rewards ?ds)) = length (rows (obs ?ds))"
      "length (rows (terminateds ?ds)) = length (rows (obs ?ds))" "rows (obs ?ds) \<noteq> []"
    by (simp_all add: replay_table_def)
  from j len have "rows (rewards ?ds) ! ?j \<in> set (rows (rewards ?ds))"
      "rows (terminateds ?ds) ! ?j \<in> set (rows (terminateds ?ds))"
    by simp_all
  with assms(1) have ne: "rows (rewards ?ds) ! ?j \<noteq> []" "rows (terminateds ?ds) ! ?j \<noteq> []"
    by (auto simp: replay_table_def)
  show ?thesis
    using j len ne by (simp add: step_def getitem_in_range getitem_first)
qed

lemma step_keeps_table:
  assumes "replay_table (env_dataset self)" and "cursor_ok self"
    and "step self a = Inr (res, self')"
  shows "env_dataset self' = env_dataset self \<and> cursor_ok self'
     \<and> index self' = (index self + 1) mod int (length (rows (obs (env_dataset self))))"
  using assms(3) assms(1,2) unfolding step_replays_row [OF assms(1,2)]
  by (auto simp: cursor_ok_def replay_table_def)

text \<open>
  C2. \<open>step\<close> is claimed to return the observation of the row following the cursor's
  row. On the table \<open>two_transitions\<close> with the cursor on row 0 it returns row 0's own
  observation (all features 1) together with row 0's reward and flag, while the
  following row observes 2: the returned observation is the current one, not the next.
\<close>

theorem step_returns_current_observation:
  "step (init_env two_transitions) [0] =
     Inr ((replicate 34 1, 5, False, False, [''episode_reward'' \<mapsto> 5]),
          \<lparr>env_dataset = two_transitions, index = 1, current_episode_reward = 5,
           current_episode_length = 1\<rparr>)
   \<and> rows (obs two_transitions) ! 0 = replicate 34 1
   \<and> rows (obs two_transitions) ! 1 = replicate 34 2
   \<and> rows (obs two_transitions) ! 0 \<noteq> rows (obs two_transitions) ! 1"
  by (simp add: step_def getitem_def init_env_def two_transitions_def)

text \<open>
  C3. From one environment state, \<open>step\<close> called with any two actions gives the same
  outcome: the same returned tuple and successor state, or the same exception.
\<close>

theorem step_ignores_action: "step self a1 = step self a2"
  by (simp add: step_def)

text \<open>
  C4. On a table with at least one row and a cursor \<open>i\<close> in range, \<open>N\<close> consecutive
  \<open>step\<close> calls all return, whatever the actions and the terminal flags of the rows,
  and leave the cursor at \<open>(i + N) mod table_size\<close>, which is in range again.
\<close>

theorem cursor_after_step_calls:
  assumes "replay_table (env_dataset self)" and "cursor_ok self"
  shows "\<exists>self'. step_calls self acts = Inr self' \<and> env_dataset self' = env_dataset self \<and>
     index self' = (index self + int (length acts))
                     mod int (length (rows (obs (env_dataset self)))) \<and>
     0 \<le> index self' \<and> index self' < int (length (rows (obs (env_dataset self))))"
  using assms
proof (induction acts arbitrary: self)
  case Nil
  then show ?case by (simp add: cursor_ok_def)
next
  case (Cons a acts)
  let ?n = "int (length (rows (obs (env_dataset self))))"
  obtain res self1 where s: "step self a = Inr (res, self1)"
    using step_replays_row [OF Cons.prems] by blast
  from step_keeps_table [OF Cons.prems s]
  have k: "env_dataset self1 = env_dataset self" "cursor_ok self1"
    "index self1 = (index self + 1) mod ?n" by simp_all
  from Cons.IH [of self1] k Cons.prems(1)
  obtain self' where r: "step_calls self1 acts = Inr self'"
     "env_dataset self' = env_dataset self"
     "index self' = (index self1 + int (length acts)) mod ?n"
     "0 \<le> index self'" "index self' < ?n" by auto
  have "(index self1 + int (length acts)) mod ?n
          = ((index self + 1) mod ?n + int (length acts)) mod ?n"
    by (simp only: k(3))
  also have "\<dots> = (index self + 1 + int (length acts)) mod ?n"
    by (rule mod_add_left_eq)
  also have "\<dots> = (index self + int (length (a # acts))) mod ?n"
    by (simp add: ac_simps)
  finally show ?case using r s by simp
qed

theorem cursor_after_step_calls_witness:
  "replay_table (env_dataset ((init_env two_transitions)\<lparr>index := 1\<rparr>)) \<and>
   cursor_ok ((init_env two_transitions)\<lparr>index := 1\<rparr>) \<and>
   (\<exists>self'. step_calls ((init_env two_transitions)\<lparr>index := 1\<rparr>) [ [0], [1], [0] ] = Inr self'
      \<and> index self' = 0)"
proof -
  have t: "replay_table (env_dataset ((init_env two_transitions)\<lparr>index := 1\<rparr>))"
    by (simp add: replay_table_def init_env_def two_transitions_def)
  have c: "cursor_ok ((init_env two_transitions)\<lparr>index := 1\<rparr>)"
    by (simp add: cursor_ok_def init_env_def two_transitions_def)
  have n: "int (length (rows (obs (env_dataset ((init_env two_transitions)\<lparr>index := 1\<rparr>))))) = 2"
    by (simp add: init_env_def two_transitions_def)
  from cursor_after_step_calls [OF t c, of "[ [0], [1], [0] ]"] t c show ?thesis
    unfolding n by auto
qed

section \<open>Properties of the dataset loader\<close>

lemma terminal_column:
  assumes "37 \<le> ncols data" and "list_all (\<lambda>r. length r = ncols data) (rows data)"
  shows "iloc_cols 36 37 data = \<lparr>ncols = 1, rows = map (\<lambda>r. [r ! 36]) (rows data)\<rparr>"
proof -
  have "take 1 (drop 36 r) = [r ! 36]" if "r \<in> set (rows data)" for r
  proof -
    from that assms have "36 < length r" by (auto simp: list_all_iff)
    then show ?thesis
      by (metis One_nat_def Cons_nth_drop_Suc take0 take_Suc_Cons)
  qed
  then have "map (\<lambda>r. take (37 - 36) (drop 36 r)) (rows data) = map (\<lambda>r. [r ! 36]) (rows data)"
    by simp
  with assms(1) show ?thesis by (simp add: iloc_cols_def)
qed

lemma sum_terminal_column:
  "array_sum \<lparr>ncols = c, rows = map (\<lambda>r. [f r]) xs\<rparr> = sum_list (map f xs)"
  by (simp add: array_sum_def comp_def)

lemma no_flag_set:
  assumes "list_all (\<lambda>r. r ! 36 = 0 \<or> r ! 36 = (1::real)) xs"
    and "sum_list (map (\<lambda>r. r ! 36) xs) = 0"
  shows "list_all (\<lambda>r. r ! 36 = 0) xs"
  using assms
proof (induction xs)
  case Nil
  then show ?case by simp
next
  case (Cons r xs)
  from Cons.prems(1) have nonneg: "0 \<le> sum_list (map (\<lambda>r. r ! 36) xs)"
    by (intro sum_list_nonneg) (auto simp: list_all_iff)
  from Cons.prems(1) have "0 \<le> r ! 36" by auto
  with nonneg Cons.prems(2) have "r ! 36 = 0" "sum_list (map (\<lambda>r. r ! 36) xs) = 0"
    by simp_all
  with Cons show ?case by simp
qed

lemma slice_last_1000: "slice_start (- 1000) n = n - 1000"
  by (simp add: slice_start_def)

text \<open>
  What the loader builds from a table with at least one row is a replay table, so the
  environment over it can be stepped without raising.
\<close>

lemma loaded_table_replays:
  assumes "transition_table data" and "rows data \<noteq> []"
    and "snd (load_offline_dataset (Inr data)) = Inr ds"
  shows "replay_table ds"
proof -
  from assms(1) have shape: "37 \<le> ncols data"
      "list_all (\<lambda>r. length r = ncols data) (rows data)"
    by (simp_all add: transition_table_def)
  have T: "iloc_cols 36 37 data = \<lparr>ncols = 1, rows = map (\<lambda>r. [r ! 36]) (rows data)\<rparr>"
    by (rule terminal_column [OF shape])
  from assms(3) obtain t where t: "terminal_fallback (iloc_cols 36 37 data) = Inr t"
    and ds: "obs ds = iloc_cols 0 34 data" "rewards ds = iloc_cols 35 36 data"
      "terminateds ds = t"
    by (auto simp: load_offline_dataset_def split: sum.splits)
  from t have tl: "length (rows t) = length (rows data)" and tn: "[] \<notin> set (rows t)"
    unfolding T
    by (auto simp: terminal_fallback_def assign_tail_col0_def split: if_splits
             dest!: in_set_takeD in_set_dropD)
  have r: "[] \<notin> set (rows (rewards ds))"
    using shape by (auto simp: ds iloc_cols_def list_all_iff)
  from assms(2) ds tl tn r show ?thesis
    by (simp add: replay_table_def iloc_cols_def)
qed

text \<open>
  C1. A table that keeps the loader's input contract always loads. The state, action
  and reward arrays are the parsed columns, untouched by the fallback. When the terminal
  column sums to zero, the rows whose flag is 1 afterwards are exactly the last
  \<open>min 1000 n\<close> ones and every earlier terminal row is as parsed; when the sum is not
  zero the terminal array is as parsed.
\<close>

theorem fallback_marks_last_rows:
  assumes "transition_table data"
  shows "\<exists>ds. snd (load_offline_dataset (Inr data)) = Inr ds \<and>
     obs ds = iloc_cols 0 34 data \<and> actions ds = iloc_cols 34 35 data \<and>
     rewards ds = iloc_cols 35 36 data \<and>
     ncols (terminateds ds) = 1 \<and> length (rows (terminateds ds)) = length (rows data) \<and>
     (array_sum (iloc_cols 36 37 data) = 0 \<longrightarrow>
        (\<forall>i < length (rows data).
           (flag (terminateds ds) i = 1) =
             (length (rows data) - min 1000 (length (rows data)) \<le> i)) \<and>
        (\<forall>i < length (rows data) - min 1000 (length (rows data)).
           rows (terminateds ds) ! i = rows (iloc_cols 36 37 data) ! i)) \<and>
     (array_sum (iloc_cols 36 37 data) \<noteq> 0 \<longrightarrow> terminateds ds = iloc_cols 36 37 data)"
proof -
  let ?n = "length (rows data)"
  let ?T = "iloc_cols 36 37 data"
  from assms have shape: "37 \<le> ncols data" "list_all (\<lambda>r. length r = ncols data) (rows data)"
    and binary: "list_all (\<lambda>r. r ! 36 = 0 \<or> r ! 36 = 1) (rows data)"
    by (simp_all add: transition_table_def)
  have T: "?T = \<lparr>ncols = 1, rows = map (\<lambda>r. [r ! 36]) (rows data)\<rparr>"
    by (rule terminal_column [OF shape])
  have sum: "array_sum ?T = sum_list (map (\<lambda>r. r ! 36) (rows data))"
    unfolding T by (rule sum_terminal_column)
  show ?thesis
  proof (cases "array_sum ?T = 0")
    case False
    then show ?thesis
      by (simp add: load_offline_dataset_def terminal_fallback_def) (simp add: T)
  next
    case True
    let ?s = "?n - 1000"
    let ?T' = "?T\<lparr>rows := take ?s (rows ?T) @ map (\<lambda>r. r[0 := 1]) (drop ?s (rows ?T))\<rparr>"
    have fb: "terminal_fallback ?T = Inr ?T'"
      using True by (simp add: terminal_fallback_def assign_tail_col0_def slice_last_1000 T)
    from True sum binary have zero: "list_all (\<lambda>r. r ! 36 = 0) (rows data)"
      by (intro no_flag_set) simp_all
    have s: "?n - min 1000 ?n = ?s" by simp
    have flags: "(flag ?T' i = 1) = (?s \<le> i)" if "i < ?n" for i
    proof (cases "i < ?s")
      case True
      from that zero have "rows data ! i ! 36 = 0" by (simp add: list_all_length)
      with True that show ?thesis by (simp add: flag_def T nth_append)
    next
      case False
      with that show ?thesis by (simp add: flag_def T nth_append)
    qed
    have early: "rows ?T' ! i = rows ?T ! i" if "i < ?s" for i
      using that by (simp add: T nth_append)
    have "snd (load_offline_dataset (Inr data)) =
        Inr \<lparr>obs = iloc_cols 0 34 data, actions = iloc_cols 34 35 data,
             rewards = iloc_cols 35 36 data, terminateds = ?T'\<rparr>"
      by (simp add: load_offline_dataset_def fb)
    moreover have "ncols ?T' = 1" "length (rows ?T') = ?n" by (simp_all add: T)
    ultimately show ?thesis using True flags early unfolding s by simp
  qed
qed

theorem fallback_marks_last_rows_witness:
  "transition_table unflagged_table \<and> array_sum (iloc_cols 36 37 unflagged_table) = 0 \<and>
   length (rows unflagged_table) = 1001 \<and>
   (\<exists>ds. snd (load_offline_dataset (Inr unflagged_table)) = Inr ds \<and>
      flag (terminateds ds) 0 = 0 \<and> flag (terminateds ds) 1 = 1 \<and>
      flag (terminateds ds) 1000 = 1)"
proof -
  have t: "transition_table unflagged_table"
    by (simp add: transition_table_def unflagged_table_def nth_append list_all_iff)
  have z: "array_sum (iloc_cols 36 37 unflagged_table) = 0"
    by (simp add: array_sum_def iloc_cols_def unflagged_table_def sum_list_replicate comp_def)
  have n: "length (rows unflagged_table) = 1001"
    by (simp add: unflagged_table_def)
  have r0: "rows (iloc_cols 36 37 unflagged_table) ! 0 = [0]"
    by (simp add: iloc_cols_def unflagged_table_def)
  from fallback_marks_last_rows [OF t] z n r0 show ?thesis
    using t by (auto simp: flag_def)
qed

text \<open>
  C7, as the code has it. Whatever \<open>read_csv\<close> raises leaves the loader unhandled, after
  the single line "Loading data..." and without any call of \<open>exit\<close>; a rectangular table
  with fewer than 37 columns ends in an unhandled IndexError raised by the fallback;
  and every table with 37 columns or more loads, whatever its number of rows: no array
  is tested for emptiness.
\<close>

theorem loader_raises_unhandled:
  "load_offline_dataset (Inl e) = ([Loading_data], Inl e) \<and>
   (list_all (\<lambda>r. length r = ncols data) (rows data) \<and> ncols data < 37 \<longrightarrow>
      load_offline_dataset (Inr data) = ([Loading_data], Inl (Exception ''IndexError''))) \<and>
   (37 \<le> ncols data \<longrightarrow>
      (\<exists>ds. load_offline_dataset (Inr data) =
         ([Loading_data,
           Data_loaded (length (rows data)) (array_mean (iloc_cols 35 36 data))], Inr ds) \<and>
         length (rows (obs ds)) = length (rows data) \<and>
         length (rows (actions ds)) = length (rows data) \<and>
         length (rows (rewards ds)) = length (rows data) \<and>
         length (rows (terminateds ds)) = length (rows data)))"
proof (intro conjI impI)
  show "load_offline_dataset (Inl e) = ([Loading_data], Inl e)"
    by (simp add: load_offline_dataset_def)
next
  assume a: "list_all (\<lambda>r. length r = ncols data) (rows data) \<and> ncols data < 37"
  then have "map (\<lambda>r. take (37 - 36) (drop 36 r)) (rows data) = map (\<lambda>r. []) (rows data)"
    by (auto simp: list_all_iff)
  with a have "iloc_cols 36 37 data = \<lparr>ncols = 0, rows = map (\<lambda>r. []) (rows data)\<rparr>"
    by (simp add: iloc_cols_def)
  then have "terminal_fallback (iloc_cols 36 37 data) = Inl (Exception ''IndexError'')"
    by (simp add: terminal_fallback_def array_sum_def assign_tail_col0_def comp_def)
  then show "load_offline_dataset (Inr data) = ([Loading_data], Inl (Exception ''IndexError''))"
    by (simp add: load_offline_dataset_def)
next
  assume w: "37 \<le> ncols data"
  then have c: "ncols (iloc_cols 36 37 data) \<noteq> 0"
    by (simp add: iloc_cols_def)
  have l: "length (rows (iloc_cols a b data)) = length (rows data)" for a b
    by (simp add: iloc_cols_def)
  have "\<exists>t. terminal_fallback (iloc_cols 36 37 data) = Inr t \<and>
    length (rows t) = length (rows data)"
    using c l [of 36 37] by (auto simp: terminal_fallback_def assign_tail_col0_def)
  then show "\<exists>ds. load_offline_dataset (Inr data) =
         ([Loading_data,
           Data_loaded (length (rows data)) (array_mean (iloc_cols 35 36 data))], Inr ds) \<and>
         length (rows (obs ds)) = length (rows data) \<and>
         length (rows (actions ds)) = length (rows data) \<and>
         length (rows (rewards ds)) = length (rows data) \<and>
         length (rows (terminateds ds)) = length (rows data)"
    by (auto simp: load_offline_dataset_def l)
qed

theorem loader_raises_unhandled_witness:
  "load_offline_dataset (Inr narrow_table) = ([Loading_data], Inl (Exception ''IndexError'')) \<and>
   (\<exists>ds. load_offline_dataset (Inr empty_table) = ([Loading_data, Data_loaded 0 None], Inr ds) \<and>
      length (rows (obs ds)) = 0 \<and> length (rows (rewards ds)) = 0)"
proof -
  have n: "list_all (\<lambda>r. length r = ncols narrow_table) (rows narrow_table) \<and>
     ncols narrow_table < 37"
    by (simp add: narrow_table_def)
  have e: "37 \<le> ncols empty_table" "length (rows empty_table) = 0"
    "array_mean (iloc_cols 35 36 empty_table) = None"
    by (simp_all add: empty_table_def array_mean_def iloc_cols_def)
  from loader_raises_unhandled [of undefined narrow_table] n
  have 1: "load_offline_dataset (Inr narrow_table) = ([Loading_data], Inl (Exception ''IndexError''))"
    by blast
  from loader_raises_unhandled [of undefined empty_table] e
  have 2: "\<exists>ds. load_offline_dataset (Inr empty_table) = ([Loading_data, Data_loaded 0 None], Inr ds) \<and>
      length (rows (obs ds)) = 0 \<and> length (rows (rewards ds)) = 0"
    by auto
  from 1 2 show ?thesis by blast
qed

text \<open>
  C7 as claimed fails: for a missing file the loader prints no error and does not exit,
  the FileNotFoundError propagates; and a table without rows is accepted and yields four
  empty arrays.
\<close>

theorem loader_does_not_report_or_validate:
  "load_offline_dataset (Inl (Exception ''FileNotFoundError'')) =
     ([Loading_data], Inl (Exception ''FileNotFoundError'')) \<and>
   load_offline_dataset (Inr empty_table) =
     ([Loading_data, Data_loaded 0 None],
      Inr \<lparr>obs = \<lparr>ncols = 34, rows = []\<rparr>, actions = \<lparr>ncols = 1, rows = []\<rparr>,
           rewards = \<lparr>ncols = 1, rows = []\<rparr>, terminateds = \<lparr>ncols = 1, rows = []\<rparr>\<rparr>)"
  by (simp add: load_offline_dataset_def empty_table_def iloc_cols_def terminal_fallback_def
        array_sum_def assign_tail_col0_def array_mean_def)

section \<open>Properties of the training driver\<close>

lemma float_less_irrefl: "\<not> float_less a a"
  by (cases a) simp_all

lemma float_less_defined: "float_less a b \<Longrightarrow> a \<noteq> Nan \<and> b \<noteq> Nan \<and> b \<noteq> Neg_inf"
  by (cases a; cases b) simp_all

lemma float_less_trans: "float_less a b \<Longrightarrow> float_less b c \<Longrightarrow> float_less a c"
  by (cases a; cases b; cases c) simp_all

lemma float_less_total: "a \<noteq> Nan \<Longrightarrow> b \<noteq> Nan \<Longrightarrow> float_less a b \<or> a = b \<or> float_less b a"
  by (cases a; cases b) auto

lemma float_less_Neg_inf: "b \<noteq> Nan \<Longrightarrow> b \<noteq> Neg_inf \<Longrightarrow> float_less Neg_inf b"
  by (cases b) simp_all

lemma iteration_out:
  "out (fst (iteration i result st)) =
     out st @ [Iteration_report i (dict_get result ''episode_reward_mean'' (Fin 0))
                 (dict_get result ''episode_len_mean'' (Fin 0))
                 (dict_get result ''num_env_steps_sampled_lifetime'' (Fin 0))]
       @ (if float_less (best_reward st) (dict_get result ''episode_reward_mean'' (Fin 0))
          then [Best_checkpoint i (dict_get result ''episode_reward_mean'' (Fin 0))] else [])
       @ (if 20 < i \<and> float_le (dict_get result ''episode_reward_mean'' (Fin 0)) (Fin 0)
          then [Early_stopping i] else [])"
  by (simp add: iteration_def emit_def Let_def)

lemma iteration_best:
  "best_reward (fst (iteration i result st)) =
     (if float_less (best_reward st) (dict_get result ''episode_reward_mean'' (Fin 0))
      then dict_get result ''episode_reward_mean'' (Fin 0) else best_reward st)"
  by (simp add: iteration_def emit_def Let_def)


lemma loop_appends_later_events:
  "\<exists>new. out (fst (training_loop train i m st)) = out st @ new \<and>
         (\<forall>ev\<in>set new. \<exists>n. iteration_of ev = Some n \<and> i \<le> n)"
proof (induction m arbitrary: i st)
  case 0
  show ?case by simp
next
  case (Suc m)
  show ?case
  proof (cases "train i")
    case (Inl e)
    then show ?thesis by simp
  next
    case (Inr result)
    obtain st1 brk where it: "iteration i result st = (st1, brk)" by fastforce
    have o1: "\<exists>new. out st1 = out st @ new \<and> (\<forall>ev\<in>set new. \<exists>n. iteration_of ev = Some n \<and> i \<le> n)"
      using iteration_out [of i result st] it by auto
    show ?thesis
    proof (cases brk)
      case True
      with Inr it o1 show ?thesis by simp
    next
      case False
      from Suc.IH [of "i + 1" st1] obtain new where
        n: "out (fst (training_loop train (i + 1) m st1)) = out st1 @ new"
           "\<forall>ev\<in>set new. \<exists>n. iteration_of ev = Some n \<and> i + 1 \<le> n" by blast
      from o1 obtain new1 where
        n1: "out st1 = out st @ new1" "\<forall>ev\<in>set new1. \<exists>n. iteration_of ev = Some n \<and> i \<le> n"
        by blast
      have "out (fst (training_loop train (i + 1) m st1)) = out st @ (new1 @ new)"
        using n(1) n1(1) by simp
      moreover have "\<forall>ev\<in>set (new1 @ new). \<exists>n. iteration_of ev = Some n \<and> i \<le> n"
        using n(2) n1(2) by fastforce
      ultimately show ?thesis using Inr it False by auto
    qed
  qed
qed

text \<open>One pass of the loop body keeps the invariant on \<open>best_reward\<close>.\<close>

lemma iteration_tracks_max:
  assumes inv: "tracks_max train i st" and tr: "train i = Inr result"
  shows "tracks_max train (Suc i) (fst (iteration i result st))"
proof -
  let ?r = "dict_get result ''episode_reward_mean'' (Fin 0)"
  let ?avg = "avg_reward_at train"
  have ai: "?avg i = ?r" by (simp add: avg_reward_at_def tr)
  from inv have old: "float_less (best_reward st) a =
      (a \<noteq> Nan \<and> a \<noteq> Neg_inf \<and> (\<forall>j<i. ?avg j = Nan \<or> float_less (?avg j) a))" for a
    by (simp add: tracks_max_def)
  have new: "float_less (best_reward (fst (iteration i result st))) a =
      (a \<noteq> Nan \<and> a \<noteq> Neg_inf \<and> (\<forall>j<Suc i. ?avg j = Nan \<or> float_less (?avg j) a))" for a
  proof (cases "float_less (best_reward st) ?r")
    case True
    then have b: "best_reward (fst (iteration i result st)) = ?r"
      by (simp add: iteration_best)
    from True old [of ?r] have r: "?r \<noteq> Nan"
      and prev: "\<forall>j<i. ?avg j = Nan \<or> float_less (?avg j) ?r" by simp_all
    show ?thesis
    proof
      assume l: "float_less (best_reward (fst (iteration i result st))) a"
      then have ra: "float_less ?r a" by (simp add: b)
      have "?avg j = Nan \<or> float_less (?avg j) a" if "j < Suc i" for j
      proof (cases "j = i")
        case True
        with ra ai show ?thesis by simp
      next
        case False
        with that have "j < i" by simp
        with prev ra show ?thesis by (blast intro: float_less_trans)
      qed
      with float_less_defined [OF ra] show "a \<noteq> Nan \<and> a \<noteq> Neg_inf \<and>
          (\<forall>j<Suc i. ?avg j = Nan \<or> float_less (?avg j) a)" by blast
    next
      assume "a \<noteq> Nan \<and> a \<noteq> Neg_inf \<and> (\<forall>j<Suc i. ?avg j = Nan \<or> float_less (?avg j) a)"
      then have "?avg i = Nan \<or> float_less (?avg i) a" by blast
      with r ai show "float_less (best_reward (fst (iteration i result st))) a"
        by (simp add: b)
    qed
  next
    case False
    then have b: "best_reward (fst (iteration i result st)) = best_reward st"
      by (simp add: iteration_best)
    show ?thesis
    proof
      assume "float_less (best_reward (fst (iteration i result st))) a"
      then have l: "float_less (best_reward st) a" by (simp add: b)
      with old [of a] have a: "a \<noteq> Nan" "a \<noteq> Neg_inf"
        and prev: "\<forall>j<i. ?avg j = Nan \<or> float_less (?avg j) a" by simp_all
      have "?r = Nan \<or> float_less ?r a"
      proof (cases "?r = Nan \<or> ?r = Neg_inf")
        case True
        with a show ?thesis by (auto intro: float_less_Neg_inf)
      next
        case ord: False
        with False old [of ?r] obtain j where j: "j < i" "?avg j \<noteq> Nan"
          "\<not> float_less (?avg j) ?r" by blast
        from prev j have ja: "float_less (?avg j) a" by blast
        from float_less_total [of "?avg j" ?r] j ord
        have "?avg j = ?r \<or> float_less ?r (?avg j)" by blast
        with ja show ?thesis by (auto intro: float_less_trans)
      qed
      with prev ai have "\<forall>j<Suc i. ?avg j = Nan \<or> float_less (?avg j) a"
        by (auto simp: less_Suc_eq)
      with a show "a \<noteq> Nan \<and> a \<noteq> Neg_inf \<and>
          (\<forall>j<Suc i. ?avg j = Nan \<or> float_less (?avg j) a)" by blast
    next
      assume "a \<noteq> Nan \<and> a \<noteq> Neg_inf \<and> (\<forall>j<Suc i. ?avg j = Nan \<or> float_less (?avg j) a)"
      then have "a \<noteq> Nan \<and> a \<noteq> Neg_inf \<and> (\<forall>j<i. ?avg j = Nan \<or> float_less (?avg j) a)"
        by (simp add: less_Suc_eq)
      with old [of a] show "float_less (best_reward (fst (iteration i result st))) a"
        by (simp add: b)
    qed
  qed
  then show ?thesis by (simp only: tracks_max_def) blast
qed

lemma iteration_all_before:
  assumes "all_before i st"
  shows "all_before (Suc i) (fst (iteration i result st))"
  using assms by (auto simp: all_before_def iteration_out less_Suc_eq split: if_splits)

text \<open>What iteration \<open>i\<close> leaves in the output, for a state reached by the loop.\<close>

lemma iteration_events:
  assumes inv: "tracks_max train i st" and bef: "all_before i st" and tr: "train i = Inr result"
  shows "(Iteration_report i a l t \<in> set (out (fst (iteration i result st)))
            \<longrightarrow> a = avg_reward_at train i) \<and>
         (Best_checkpoint i b \<in> set (out (fst (iteration i result st))) \<longleftrightarrow>
            b = avg_reward_at train i \<and> b \<noteq> Nan \<and> b \<noteq> Neg_inf \<and>
            (\<forall>j<i. avg_reward_at train j = Nan \<or> float_less (avg_reward_at train j) b)) \<and>
         (Early_stopping i \<in> set (out (fst (iteration i result st))) \<longleftrightarrow>
            20 < i \<and> float_le (avg_reward_at train i) (Fin 0))"
proof -
  have ai: "avg_reward_at train i = dict_get result ''episode_reward_mean'' (Fin 0)"
    by (simp add: avg_reward_at_def tr)
  from bef have old: "Iteration_report i a l t \<notin> set (out st)"
      "Best_checkpoint i b \<notin> set (out st)" "Early_stopping i \<notin> set (out st)"
    by (auto simp: all_before_def)
  from inv have ex: "float_less (best_reward st) (avg_reward_at train i) =
      (avg_reward_at train i \<noteq> Nan \<and> avg_reward_at train i \<noteq> Neg_inf \<and>
       (\<forall>j<i. avg_reward_at train j = Nan
              \<or> float_less (avg_reward_at train j) (avg_reward_at train i)))"
    by (simp add: tracks_max_def)
  show ?thesis
    using old ex unfolding iteration_out ai [symmetric] by auto
qed

lemma later_events_stable:
  assumes "out st' = out st1 @ new"
    and "\<forall>ev\<in>set new. \<exists>n. iteration_of ev = Some n \<and> Suc i \<le> n"
    and "iteration_of x = Some i"
  shows "x \<in> set (out st') \<longleftrightarrow> x \<in> set (out st1)"
  using assms by fastforce

text \<open>
  The events of a reported iteration \<open>k\<close> in the output of the loop, when the loop starts
  in a state that satisfies the invariant.
\<close>

lemma loop_events:
  assumes "tracks_max train i st" and "all_before i st" and "i \<le> k"
    and "Iteration_report k a l t \<in> set (out (fst (training_loop train i m st)))"
  shows "a = avg_reward_at train k \<and>
     (\<forall>b. Best_checkpoint k b \<in> set (out (fst (training_loop train i m st))) \<longleftrightarrow>
        b = a \<and> a \<noteq> Nan \<and> a \<noteq> Neg_inf \<and>
        (\<forall>j<k. avg_reward_at train j = Nan \<or> float_less (avg_reward_at train j) a)) \<and>
     (Early_stopping k \<in> set (out (fst (training_loop train i m st))) \<longleftrightarrow>
        20 < k \<and> float_le a (Fin 0))"
  using assms
proof (induction m arbitrary: i st)
  case 0
  then show ?case by (auto simp: all_before_def)
next
  case (Suc m)
  show ?case
  proof (cases "train i")
    case (Inl e)
    with Suc.prems show ?thesis by (auto simp: all_before_def)
  next
    case (Inr result)
    let ?st1 = "fst (iteration i result st)"
    let ?L = "fst (training_loop train i (Suc m) st)"
    have it: "iteration i result st = (?st1, snd (iteration i result st))" by simp
    have inv1: "tracks_max train (Suc i) ?st1"
      by (rule iteration_tracks_max [OF Suc.prems(1) Inr])
    have bef1: "all_before (Suc i) ?st1"
      by (rule iteration_all_before [OF Suc.prems(2)])
    note ev = iteration_events [OF Suc.prems(1,2) Inr]
    have stable: "x \<in> set (out ?L) \<longleftrightarrow> x \<in> set (out ?st1)" if "iteration_of x = Some i" for x
    proof (cases "snd (iteration i result st)")
      case True
      with Inr it show ?thesis by (simp add: case_prod_beta)
    next
      case False
      then have L: "?L = fst (training_loop train (i + 1) m ?st1)"
        using Inr by (simp add: case_prod_beta)
      from loop_appends_later_events [of train "i + 1" m ?st1] obtain new where
        "out (fst (training_loop train (i + 1) m ?st1)) = out ?st1 @ new"
        "\<forall>ev\<in>set new. \<exists>n. iteration_of ev = Some n \<and> Suc i \<le> n" by auto
      with that show ?thesis unfolding L by (intro later_events_stable) auto
    qed
    show ?thesis
    proof (cases "k = i")
      case True
      from Suc.prems(4) have "Iteration_report i a l t \<in> set (out ?st1)"
        unfolding True using stable [of "Iteration_report i a l t"] by simp
      with ev [of a l t] have a: "a = avg_reward_at train i" by blast
      have "Best_checkpoint i b \<in> set (out ?L) \<longleftrightarrow>
          b = a \<and> a \<noteq> Nan \<and> a \<noteq> Neg_inf \<and>
          (\<forall>j<i. avg_reward_at train j = Nan \<or> float_less (avg_reward_at train j) a)" for b
        using stable [of "Best_checkpoint i b"] ev [of a l t b] a by auto
      moreover have "Early_stopping i \<in> set (out ?L) \<longleftrightarrow> 20 < i \<and> float_le a (Fin 0)"
        using stable [of "Early_stopping i"] ev [of a l t a] a by simp
      ultimately show ?thesis using a True by blast
    next
      case False
      with Suc.prems(3) have k: "Suc i \<le> k" by simp
      have nb: "\<not> snd (iteration i result st)"
      proof
        assume "snd (iteration i result st)"
        with Inr have "?L = ?st1" by (simp add: case_prod_beta)
        with Suc.prems(4) bef1 k show False by (auto simp: all_before_def)
      qed
      then have L: "?L = fst (training_loop train (Suc i) m ?st1)"
        using Inr by (simp add: case_prod_beta)
      from Suc.IH [OF inv1 bef1 k] Suc.prems(4) show ?thesis unfolding L by blast
    qed
  qed
qed

lemma initial_tracks_max: "tracks_max train 0 initial_driver"
  by (auto simp: tracks_max_def initial_driver_def
           intro: float_less_Neg_inf dest: float_less_defined)

lemma initial_all_before: "all_before 0 initial_driver"
  by (simp add: all_before_def initial_driver_def)

lemma main_out:
  "\<exists>tail. fst (main train export) =
       out (fst (training_loop train 0 100 initial_driver)) @ tail \<and>
     (\<forall>ev\<in>set tail. iteration_of ev = None)"
  by (cases "training_loop train 0 100 initial_driver")
     (auto simp: main_def export_model_def emit_def Let_def
           split: sum.splits bool.splits py_raise.splits loop_exit.splits)

lemma main_iteration_events:
  assumes "iteration_of x = Some n"
  shows "x \<in> set (fst (main train export)) \<longleftrightarrow>
         x \<in> set (out (fst (training_loop train 0 100 initial_driver)))"
proof -
  from main_out [of train export] obtain tail where
    "fst (main train export) = out (fst (training_loop train 0 100 initial_driver)) @ tail"
    "\<forall>ev\<in>set tail. iteration_of ev = None" by blast
  with assms show ?thesis by fastforce
qed

lemma loop_reached:
  assumes "all_before i st" and "i \<le> k"
    and "Iteration_report k a l t \<in> set (out (fst (training_loop train i m st)))"
  shows "\<forall>j. i \<le> j \<and> j \<le> k \<longrightarrow> (\<exists>result. train j = Inr result)"
  using assms
proof (induction m arbitrary: i st)
  case 0
  then show ?case by (auto simp: all_before_def)
next
  case (Suc m)
  show ?case
  proof (cases "train i")
    case (Inl e)
    with Suc.prems show ?thesis by (auto simp: all_before_def)
  next
    case (Inr result)
    let ?st1 = "fst (iteration i result st)"
    have bef1: "all_before (Suc i) ?st1"
      by (rule iteration_all_before [OF Suc.prems(1)])
    show ?thesis
    proof (cases "k = i")
      case True
      with Inr show ?thesis by auto
    next
      case False
      with Suc.prems(2) have k: "Suc i \<le> k" by simp
      have nb: "\<not> snd (iteration i result st)"
      proof
        assume "snd (iteration i result st)"
        with Inr have "fst (training_loop train i (Suc m) st) = ?st1"
          by (simp add: case_prod_beta)
        with Suc.prems(3) bef1 k show False by (auto simp: all_before_def)
      qed
      then have "fst (training_loop train i (Suc m) st) = fst (training_loop train (Suc i) m ?st1)"
        using Inr by (simp add: case_prod_beta)
      with Suc.prems(3) Suc.IH [OF bef1 k]
      have "\<forall>j. Suc i \<le> j \<and> j \<le> k \<longrightarrow> (\<exists>result. train j = Inr result)" by simp
      with Inr show ?thesis by (metis Suc_leI le_neq_implies_less)
    qed
  qed
qed




lemma loop_reports_first:
  assumes "train i = Inr result"
  shows "Iteration_report i (dict_get result ''episode_reward_mean'' (Fin 0))
           (dict_get result ''episode_len_mean'' (Fin 0))
           (dict_get result ''num_env_steps_sampled_lifetime'' (Fin 0))
         \<in> set (out (fst (training_loop train i (Suc m) st)))"
proof -
  let ?st1 = "fst (iteration i result st)"
  let ?r = "Iteration_report i (dict_get result ''episode_reward_mean'' (Fin 0))
           (dict_get result ''episode_len_mean'' (Fin 0))
           (dict_get result ''num_env_steps_sampled_lifetime'' (Fin 0))"
  have r: "?r \<in> set (out ?st1)" by (simp add: iteration_out)
  show ?thesis
  proof (cases "snd (iteration i result st)")
    case True
    with assms r show ?thesis by (simp add: case_prod_beta)
  next
    case False
    from loop_appends_later_events [of train "i + 1" m ?st1] r
    have "?r \<in> set (out (fst (training_loop train (i + 1) m ?st1)))" by auto
    with False assms show ?thesis by (simp add: case_prod_beta)
  qed
qed

text \<open>
  C5, as the code has it. In a run whose output reports iteration \<open>k\<close> with mean reward
  \<open>a\<close>, all iterations up to \<open>k\<close> returned a result, and the best checkpoint is saved in
  iteration \<open>k\<close> exactly when \<open>a\<close> is neither NaN nor minus infinity and is strictly
  greater than the mean reward of every earlier iteration whose mean reward is not NaN.
  When no mean reward up to \<open>k\<close> is NaN or minus infinity (in particular when all are
  finite), that is: exactly when \<open>a\<close> is strictly greater than the mean reward of every
  earlier iteration. The checkpoint is saved with the reward \<open>a\<close> only, and a reward
  equal to an earlier one saves nothing. In any single pass of the loop body
  \<open>best_reward\<close> changes exactly when that pass emits the save.
\<close>

theorem best_checkpoint_iff_exceeds_previous:
  assumes "Iteration_report k a l t \<in> set (fst (main train export))"
  shows "a = avg_reward_at train k \<and> (\<forall>j\<le>k. \<exists>result. train j = Inr result) \<and>
     (Best_checkpoint k a \<in> set (fst (main train export)) \<longleftrightarrow>
        a \<noteq> Nan \<and> a \<noteq> Neg_inf \<and>
        (\<forall>j<k. avg_reward_at train j = Nan \<or> float_less (avg_reward_at train j) a)) \<and>
     ((\<forall>j\<le>k. avg_reward_at train j \<noteq> Nan \<and> avg_reward_at train j \<noteq> Neg_inf) \<longrightarrow>
        (Best_checkpoint k a \<in> set (fst (main train export)) \<longleftrightarrow>
           (\<forall>j<k. float_less (avg_reward_at train j) a))) \<and>
     (\<forall>b. Best_checkpoint k b \<in> set (fst (main train export)) \<longrightarrow> b = a) \<and>
     ((\<exists>j<k. avg_reward_at train j = a) \<longrightarrow>
        Best_checkpoint k a \<notin> set (fst (main train export))) \<and>
     ((best_reward (fst (iteration i result st)) \<noteq> best_reward st) =
        (Best_checkpoint i (dict_get result ''episode_reward_mean'' (Fin 0))
           \<in> set (drop (length (out st)) (out (fst (iteration i result st))))))"
proof -
  let ?L = "fst (training_loop train 0 100 initial_driver)"
  let ?avg = "avg_reward_at train"
  from assms have rep: "Iteration_report k a l t \<in> set (out ?L)"
    by (simp add: main_iteration_events)
  note ev = loop_events [OF initial_tracks_max initial_all_before le0 rep]
  from ev have a: "a = ?avg k" by blast
  have best: "Best_checkpoint k b \<in> set (fst (main train export)) \<longleftrightarrow>
      b = a \<and> a \<noteq> Nan \<and> a \<noteq> Neg_inf \<and> (\<forall>j<k. ?avg j = Nan \<or> float_less (?avg j) a)" for b
    using ev by (simp add: main_iteration_events)
  have reached: "\<forall>j\<le>k. \<exists>result. train j = Inr result"
    using loop_reached [OF initial_all_before le0 rep] by simp
  have ordinary: "Best_checkpoint k a \<in> set (fst (main train export)) \<longleftrightarrow>
      (\<forall>j<k. float_less (?avg j) a)"
    if "\<forall>j\<le>k. ?avg j \<noteq> Nan \<and> ?avg j \<noteq> Neg_inf"
  proof -
    from that a have "a \<noteq> Nan" "a \<noteq> Neg_inf" by auto
    moreover from that have "\<forall>j<k. ?avg j \<noteq> Nan" by auto
    ultimately show ?thesis unfolding best [of a] by auto
  qed
  have tie: "Best_checkpoint k a \<notin> set (fst (main train export))" if "\<exists>j<k. ?avg j = a"
  proof
    assume "Best_checkpoint k a \<in> set (fst (main train export))"
    with best [of a] that show False by (auto simp: float_less_irrefl)
  qed
  have upd: "(best_reward (fst (iteration i result st)) \<noteq> best_reward st) =
        (Best_checkpoint i (dict_get result ''episode_reward_mean'' (Fin 0))
           \<in> set (drop (length (out st)) (out (fst (iteration i result st)))))"
    using float_less_irrefl [of "best_reward st"]
    by (auto simp: iteration_out iteration_best)
  from a reached best ordinary tie upd show ?thesis by blast
qed

theorem best_checkpoint_iff_exceeds_previous_witness:
  "Iteration_report 2 (Fin 3) (Fin 0) (Fin 0) \<in> set (fst (main interrupted_run (Inr True))) \<and>
   Best_checkpoint 2 (Fin 3) \<in> set (fst (main interrupted_run (Inr True))) \<and>
   Iteration_report 1 (Fin 1) (Fin 0) (Fin 0) \<in> set (fst (main interrupted_run (Inr True))) \<and>
   Best_checkpoint 1 (Fin 1) \<notin> set (fst (main interrupted_run (Inr True)))"
proof -
  have r2: "Iteration_report 2 (Fin 3) (Fin 0) (Fin 0)
      \<in> set (fst (main interrupted_run (Inr True)))"
    by code_simp
  have r1: "Iteration_report 1 (Fin 1) (Fin 0) (Fin 0)
      \<in> set (fst (main interrupted_run (Inr True)))"
    by code_simp
  have a: "avg_reward_at interrupted_run 0 = Fin 1" "avg_reward_at interrupted_run 1 = Fin 1"
    "avg_reward_at interrupted_run 2 = Fin 3"
    by (simp_all add: avg_reward_at_def interrupted_run_def dict_get_def)
  have o: "\<forall>j\<le>2. avg_reward_at interrupted_run j \<noteq> Nan \<and>
      avg_reward_at interrupted_run j \<noteq> Neg_inf"
    using a by (auto simp: le_Suc_eq numeral_2_eq_2)
  have "\<forall>j<2. float_less (avg_reward_at interrupted_run j) (Fin 3)"
    using a by (auto simp: less_Suc_eq numeral_2_eq_2)
  with best_checkpoint_iff_exceeds_previous [OF r2] o
  have b2: "Best_checkpoint 2 (Fin 3) \<in> set (fst (main interrupted_run (Inr True)))" by blast
  have "\<exists>j<1. avg_reward_at interrupted_run j = Fin 1" using a by auto
  with best_checkpoint_iff_exceeds_previous [OF r1]
  have b1: "Best_checkpoint 1 (Fin 1) \<notin> set (fst (main interrupted_run (Inr True)))" by blast
  from r2 b2 r1 b1 show ?thesis by blast
qed

text \<open>
  C5 as claimed fails on NaN. In the run \<open>nan_run\<close> iteration 1 saves the best
  checkpoint although its mean reward 1 does not exceed the mean reward NaN of
  iteration 0, and iteration 0 saves nothing although no iteration precedes it.
\<close>

theorem nan_breaks_save_iff_better:
  "Iteration_report 1 (Fin 1) (Fin 0) (Fin 0) \<in> set (fst (main nan_run (Inr True))) \<and>
   Best_checkpoint 1 (Fin 1) \<in> set (fst (main nan_run (Inr True))) \<and>
   avg_reward_at nan_run 0 = Nan \<and>
   \<not> float_less (avg_reward_at nan_run 0) (Fin 1) \<and>
   Iteration_report 0 Nan (Fin 0) (Fin 0) \<in> set (fst (main nan_run (Inr True))) \<and>
   Best_checkpoint 0 Nan \<notin> set (fst (main nan_run (Inr True)))"
  by code_simp





text \<open>
  C10, as the code has it. \<open>best_reward\<close> starts at minus infinity, and a run whose
  first \<open>algo.train()\<close> returns saves the best checkpoint in iteration 0 exactly when
  that iteration's mean reward is neither NaN nor minus infinity. So it is saved for
  every finite mean reward, and in particular with the reward 0 when the result has no
  key \<open>episode_reward_mean\<close>.
\<close>

theorem first_iteration_saves_unless_nan:
  assumes "train 0 = Inr result"
  shows "best_reward initial_driver = Neg_inf \<and>
     (Best_checkpoint 0 (dict_get result ''episode_reward_mean'' (Fin 0))
        \<in> set (fst (main train export)) \<longleftrightarrow>
      dict_get result ''episode_reward_mean'' (Fin 0) \<noteq> Nan \<and>
      dict_get result ''episode_reward_mean'' (Fin 0) \<noteq> Neg_inf) \<and>
     (dict_get result ''episode_reward_mean'' (Fin 0) = Fin x \<longrightarrow>
        Best_checkpoint 0 (Fin x) \<in> set (fst (main train export))) \<and>
     (result ''episode_reward_mean'' = None \<longrightarrow>
        Best_checkpoint 0 (Fin 0) \<in> set (fst (main train export)))"
proof -
  let ?a = "dict_get result ''episode_reward_mean'' (Fin 0)"
  have "(100::nat) = Suc 99" by simp
  then have "training_loop train 0 100 initial_driver
      = training_loop train 0 (Suc 99) initial_driver"
    by (simp only:)
  with loop_reports_first [of train 0 result 99 initial_driver] assms
  have rep: "Iteration_report 0 ?a (dict_get result ''episode_len_mean'' (Fin 0))
           (dict_get result ''num_env_steps_sampled_lifetime'' (Fin 0))
         \<in> set (out (fst (training_loop train 0 100 initial_driver)))" by (simp only:)
  from loop_events [OF initial_tracks_max initial_all_before le0 rep]
  have "Best_checkpoint 0 ?a \<in> set (out (fst (training_loop train 0 100 initial_driver)))
      \<longleftrightarrow> ?a \<noteq> Nan \<and> ?a \<noteq> Neg_inf"
    by simp
  then have b: "Best_checkpoint 0 ?a \<in> set (fst (main train export))
      \<longleftrightarrow> ?a \<noteq> Nan \<and> ?a \<noteq> Neg_inf"
    by (simp add: main_iteration_events)
  moreover have "result ''episode_reward_mean'' = None \<Longrightarrow> ?a = Fin 0"
    by (simp add: dict_get_def)
  ultimately show ?thesis by (auto simp: initial_driver_def)
qed

theorem first_iteration_saves_unless_nan_witness:
  "stagnant_run 0 = Inr Map.empty \<and>
   Best_checkpoint 0 (Fin 0) \<in> set (fst (main stagnant_run (Inl (Exception ''RuntimeError'')))) \<and>
   interrupted_run 0 = Inr [''episode_reward_mean'' \<mapsto> Fin 1] \<and>
   Best_checkpoint 0 (Fin 1) \<in> set (fst (main interrupted_run (Inr True)))"
proof -
  have t: "stagnant_run 0 = Inr Map.empty" by (simp add: stagnant_run_def)
  have u: "interrupted_run 0 = Inr [''episode_reward_mean'' \<mapsto> Fin 1]"
    by (simp add: interrupted_run_def)
  from first_iteration_saves_unless_nan
         [of stagnant_run Map.empty "Inl (Exception ''RuntimeError'')"] t
  have 1: "Best_checkpoint 0 (Fin 0)
      \<in> set (fst (main stagnant_run (Inl (Exception ''RuntimeError''))))" by simp
  from first_iteration_saves_unless_nan
         [of interrupted_run "[''episode_reward_mean'' \<mapsto> Fin 1]" "Inr True" 1] u
  have 2: "Best_checkpoint 0 (Fin 1) \<in> set (fst (main interrupted_run (Inr True)))"
    by (simp add: dict_get_def)
  from t 1 u 2 show ?thesis by blast
qed

text \<open>
  C10 as claimed fails on NaN: the run \<open>nan_run\<close> completes its first iteration with
  the mean reward NaN and saves no checkpoint in it; its first save is in iteration 1.
\<close>

theorem nan_first_iteration_saves_nothing:
  "nan_run 0 = Inr [''episode_reward_mean'' \<mapsto> Nan] \<and>
   main nan_run (Inr True) =
     ([Iteration_report 0 Nan (Fin 0) (Fin 0),
       Iteration_report 1 (Fin 1) (Fin 0) (Fin 0), Best_checkpoint 1 (Fin 1),
       Interrupted, Final_checkpoint, Torch_model_saved, Process_completed], None)"
proof -
  have "nan_run 0 = Inr [''episode_reward_mean'' \<mapsto> Nan]"
    by (simp add: nan_run_def)
  moreover have "main nan_run (Inr True) =
     ([Iteration_report 0 Nan (Fin 0) (Fin 0),
       Iteration_report 1 (Fin 1) (Fin 0) (Fin 0), Best_checkpoint 1 (Fin 1),
       Interrupted, Final_checkpoint, Torch_model_saved, Process_completed], None)"
    by code_simp
  ultimately show ?thesis by blast
qed


section \<open>Properties of the curve fitting\<close>

text \<open>
  C9, as the code has it. When the polynomial fit raises an exception of class
  Exception (in either group: \<open>polynomial_fit\<close> raises what the first failing call
  raises), the message is printed and the result of the section is that of the spline
  fit: if both splines are built and evaluated, the curves of both groups are the
  splines', the method is "Spline Interpolation" and the success flag is False; if the
  spline fit raises, that exception leaves the section.
\<close>

theorem polynomial_failure_falls_back:
  assumes "polynomial_fit np x_data y0_mean y1_mean x_fine = Inl (Exception msg)"
  shows "curve_fitting np x_data y0_mean y1_mean x_fine =
           ([Polynomial_failed msg], spline_fit np x_data y0_mean y1_mean x_fine) \<and>
     (UnivariateSpline np x_data y0_mean 100 = Inr spl0 \<and>
      UnivariateSpline np x_data y1_mean 100 = Inr spl1 \<and>
      spl0 x_fine = Inr c0 \<and> spl1 x_fine = Inr c1 \<longrightarrow>
        snd (curve_fitting np x_data y0_mean y1_mean x_fine) =
          Inr \<lparr>fit_method = ''Spline Interpolation'', y0_fit = c0, y1_fit = c1,
               success = False\<rparr>) \<and>
     (spline_fit np x_data y0_mean y1_mean x_fine = Inl e \<longrightarrow>
        snd (curve_fitting np x_data y0_mean y1_mean x_fine) = Inl e)"
  using assms by (simp add: curve_fitting_def spline_fit_def and_then_def)

theorem polynomial_failure_falls_back_witness:
  "polynomial_fit spline_only_lib [0, 1] [1, 3] [2, 4] [0, 1 / 2, 1] =
     Inl (Exception ''LinAlgError'') \<and>
   curve_fitting spline_only_lib [0, 1] [1, 3] [2, 4] [0, 1 / 2, 1] =
     ([Polynomial_failed ''LinAlgError''],
      Inr \<lparr>fit_method = ''Spline Interpolation'', y0_fit = [4, 4, 4], y1_fit = [6, 6, 6],
           success = False\<rparr>)"
proof -
  have p: "polynomial_fit spline_only_lib [0, 1] [1, 3] [2, 4] [0, 1 / 2, 1] =
     Inl (Exception ''LinAlgError'')"
    by (simp add: polynomial_fit_def spline_only_lib_def and_then_def)
  have s: "spline_fit spline_only_lib [0, 1] [1, 3] [2, 4] [0, 1 / 2, 1] =
     Inr \<lparr>fit_method = ''Spline Interpolation'', y0_fit = [4, 4, 4], y1_fit = [6, 6, 6],
           success = False\<rparr>"
    by (simp add: spline_fit_def spline_only_lib_def and_then_def)
  from polynomial_failure_falls_back [OF p] p s show ?thesis by simp
qed

text \<open>
  C9 as claimed fails: with a library whose polynomial fit and spline construction both
  raise, the fallback is entered and the script ends in the spline's ValueError
  without any fitted curve.
\<close>

theorem spline_failure_aborts:
  "curve_fitting failing_lib [0, 1] [1, 3] [2, 4] [0, 1 / 2, 1] =
     ([Polynomial_failed ''LinAlgError''], Inl (Exception ''ValueError''))"
  by (simp add: curve_fitting_def polynomial_fit_def spline_fit_def failing_lib_def and_then_def)

end
